theory Spec2Isabelle
  imports Main
begin

section \<open>Python strings\<close>

text \<open>
  A Python string is modelled as a \<^typ>\<open>string\<close>, each character read as a code point
  below 256. The three string methods the handlers call are written out on that range
  as Python 3 defines them: \<^verbatim>\<open>str.lower()\<close>, \<^verbatim>\<open>str.split()\<close> (no argument: split on
  runs of whitespace, no empty tokens) and \<^verbatim>\<open>str.split(sep)\<close> (split at every occurrence
  of the separator, empty pieces kept), together with the slice \<^verbatim>\<open>s[i:j]\<close>.
\<close>

definition lower_char :: "char \<Rightarrow> char" where
  "lower_char c =
     (let n = (of_char c :: nat)
      in if (65 \<le> n \<and> n \<le> 90) \<or> (192 \<le> n \<and> n \<le> 222 \<and> n \<noteq> 215)
         then char_of (n + 32) else c)"

definition lower :: "string \<Rightarrow> string" where
  "lower s = map lower_char s"

definition isspace :: "char \<Rightarrow> bool" where
  "isspace c =
     (let n = (of_char c :: nat)
      in (9 \<le> n \<and> n \<le> 13) \<or> (28 \<le> n \<and> n \<le> 32) \<or> n = 133 \<or> n = 160)"

fun split_from :: "string \<Rightarrow> string \<Rightarrow> string list" where
  "split_from cur [] = (if cur = [] then [] else [cur])"
| "split_from cur (c # cs) =
     (if isspace c
      then (if cur = [] then split_from [] cs else cur # split_from [] cs)
      else split_from (cur @ [c]) cs)"

definition str_split :: "string \<Rightarrow> string list" where
  "str_split s = split_from [] s"

fun split_sep :: "char \<Rightarrow> string \<Rightarrow> string list" where
  "split_sep d [] = [[]]"
| "split_sep d (c # cs) =
     (if c = d then [] # split_sep d cs
      else (case split_sep d cs of [] \<Rightarrow> [[c]] | x # xs \<Rightarrow> (c # x) # xs))"

definition slice :: "'a list \<Rightarrow> int \<Rightarrow> int \<Rightarrow> 'a list" where
  "slice xs i j =
     (let n = int (length xs);
          lo = (if i < 0 then max 0 (i + n) else min i n);
          hi = (if j < 0 then max 0 (j + n) else min j n)
      in take (nat (hi - lo)) (drop (nat lo) xs))"

section \<open>Updates, filters and the callback context\<close>

text \<open>
  Only the attributes the handlers read are kept. \<^verbatim>\<open>Update.effective_message\<close> and
  \<^verbatim>\<open>Update.effective_chat\<close> are attributes of the update as the handlers see them;
  an attribute that is \<^verbatim>\<open>None\<close> is \<^term>\<open>None\<close>. The handlers' \<^verbatim>\<open>isinstance(update, Update)\<close>
  test is the type of the argument.
\<close>

datatype entity_type = BOT_COMMAND | MENTION | HASHTAG | URL | OTHER_ENTITY

record MessageEntity =
  ent_type :: entity_type
  ent_offset :: int
  ent_length :: int

record Message =
  msg_text :: "string option"
  msg_entities :: "MessageEntity list"
  bot_username :: string

record InlineQuery =
  query :: string

record CallbackQuery =
  data :: "string option"

record Chat =
  chat_id :: int

record Update =
  effective_message :: "Message option"
  inline_query :: "InlineQuery option"
  callback_query :: "CallbackQuery option"
  effective_chat :: "Chat option"

text \<open>
  What a filter returns: \<^verbatim>\<open>None\<close>, a boolean, or a dict of extra context data. The
  handlers test it with \<^verbatim>\<open>if filter_result:\<close>, Python's truth value.
\<close>

datatype filter_result = FNone | FBool bool | FDict "(string \<times> string) list"

fun truthy :: "filter_result \<Rightarrow> bool" where
  "truthy FNone = False"
| "truthy (FBool b) = b"
| "truthy (FDict d) = (d \<noteq> [])"

datatype error = ValueError | IndexError | TypeError | AttributeError | ReError

section \<open>Regular expressions\<close>

text \<open>
  The compiled pattern objects of Python's \<^verbatim>\<open>re\<close>, for the star-free fragment: a literal
  character, \<^verbatim>\<open>.\<close> (any character but a newline), \<^verbatim>\<open>^\<close>, the empty pattern, sequence
  and \<^verbatim>\<open>|\<close>. \<^term>\<open>ends r s i\<close> lists the positions at which a match of \<open>r\<close> that starts at
  position \<open>i\<close> of \<open>s\<close> can end, in the order the backtracking matcher tries them; the
  match object keeps the subject string and the span. \<^verbatim>\<open>re.match\<close> tries position 0 only,
  \<^verbatim>\<open>re.search\<close> every position from the left, \<^verbatim>\<open>re.fullmatch\<close> asks the match to end at
  the end of the string.
\<close>

datatype regex = Lit char | AnyChar | Bol | Eps | Cat regex regex | Alt regex regex

fun ends :: "regex \<Rightarrow> string \<Rightarrow> nat \<Rightarrow> nat list" where
  "ends (Lit c) s i = (if i < length s \<and> s ! i = c then [Suc i] else [])"
| "ends AnyChar s i = (if i < length s \<and> s ! i \<noteq> CHR 0x0A then [Suc i] else [])"
| "ends Bol s i = (if i = 0 then [i] else [])"
| "ends Eps s i = [i]"
| "ends (Cat r1 r2) s i = concat (map (ends r2 s) (ends r1 s i))"
| "ends (Alt r1 r2) s i = ends r1 s i @ ends r2 s i"

record Match =
  m_string :: string
  m_start :: nat
  m_end :: nat

definition match_at :: "regex \<Rightarrow> string \<Rightarrow> nat \<Rightarrow> Match option" where
  "match_at r s i =
     (case ends r s i of
        [] \<Rightarrow> None
      | e # _ \<Rightarrow> Some \<lparr>m_string = s, m_start = i, m_end = e\<rparr>)"

definition re_match :: "regex \<Rightarrow> string \<Rightarrow> Match option" where
  "re_match r s = match_at r s 0"

fun first_match :: "regex \<Rightarrow> string \<Rightarrow> nat list \<Rightarrow> Match option" where
  "first_match r s [] = None"
| "first_match r s (i # is) =
     (case match_at r s i of Some m \<Rightarrow> Some m | None \<Rightarrow> first_match r s is)"

definition re_search :: "regex \<Rightarrow> string \<Rightarrow> Match option" where
  "re_search r s = first_match r s [0..<Suc (length s)]"

definition re_fullmatch :: "regex \<Rightarrow> string \<Rightarrow> Match option" where
  "re_fullmatch r s =
     (case filter (\<lambda>e. e = length s) (ends r s 0) of
        [] \<Rightarrow> None
      | e # _ \<Rightarrow> Some \<lparr>m_string = s, m_start = 0, m_end = e\<rparr>)"

text \<open>The literal pattern that matches the characters of \<open>w\<close> in a row.\<close>

fun lits :: "string \<Rightarrow> regex" where
  "lits [] = Eps"
| "lits (c # cs) = Cat (Lit c) (lits cs)"

section \<open>CommandHandler\<close>

text \<open>
  \<^verbatim>\<open>telegram.ext.Filters\<close> is not among the sources: the default filter
  \<^verbatim>\<open>Filters.update.messages\<close> and the operator \<^verbatim>\<open>&\<close> on filters are parameters of the
  constructors. A handler keeps the merged filter as the function it calls on an update.
\<close>

type_synonym filter = "Update \<Rightarrow> filter_result"

record Filters =
  update_messages :: filter
  and_filter :: "filter \<Rightarrow> filter \<Rightarrow> filter"

record CommandHandler =
  command :: "string list"
  filters :: filter

text \<open>The argument \<^verbatim>\<open>command\<close> (and \<^verbatim>\<open>prefix\<close>): one string or a list of strings.\<close>

datatype str_or_list = Str string | StrList "string list"

text \<open>
  \<^verbatim>\<open>re.match(r'^[\da-z_]{1,32}$', comm)\<close>, written out: the longest run of characters of
  the class \<^verbatim>\<open>[\da-z_]\<close> at the start of \<open>comm\<close> has 1 to 32 characters, and \<^verbatim>\<open>$\<close> matches
  after it, that is at the end of the string or before a newline that ends the string.
  On the code points of this model (below 256) \<^verbatim>\<open>\d\<close> is the digits 0 to 9. In Python 3
  \<^verbatim>\<open>\d\<close> also matches the decimal digits of other scripts; those characters are not
  strings of this model.
\<close>

definition is_command_char :: "char \<Rightarrow> bool" where
  "is_command_char c =
     (let n = (of_char c :: nat)
      in (48 \<le> n \<and> n \<le> 57) \<or> (97 \<le> n \<and> n \<le> 122) \<or> n = 95)"

definition command_re_match :: "string \<Rightarrow> bool" where
  "command_re_match comm =
     (let body = takeWhile is_command_char comm;
          rest = dropWhile is_command_char comm
      in 1 \<le> length body \<and> length body \<le> 32 \<and> (rest = [] \<or> rest = [CHR 0x0A]))"

text \<open>The loop \<^verbatim>\<open>for comm in self.command\<close> of the constructor: the first token that
  does not match raises.\<close>

fun validate :: "string list \<Rightarrow> error + unit" where
  "validate [] = Inr ()"
| "validate (comm # rest) =
     (if \<not> command_re_match comm then Inl ValueError else validate rest)"

definition CommandHandler_init ::
  "Filters \<Rightarrow> str_or_list \<Rightarrow> filter option \<Rightarrow> error + CommandHandler" where
  "CommandHandler_init F cmd flt =
     (let cmds = (case cmd of Str c \<Rightarrow> [lower c] | StrList cs \<Rightarrow> map lower cs)
      in case validate cmds of
           Inl e \<Rightarrow> Inl e
         | Inr _ \<Rightarrow>
             Inr \<lparr>command = cmds,
                  filters = (case flt of
                               Some f \<Rightarrow> and_filter F (update_messages F) f
                             | None \<Rightarrow> update_messages F)\<rparr>)"

text \<open>
  The value of \<^verbatim>\<open>check_update\<close>: \<^verbatim>\<open>None\<close> (also when the method falls off its end),
  \<^verbatim>\<open>False\<close>, or the pair \<^verbatim>\<open>(args, filter_result)\<close>.
\<close>

datatype check_result = NoMatch | Rejected | Matched "string list" filter_result

definition CommandHandler_check_update ::
  "'a CommandHandler_scheme \<Rightarrow> Update \<Rightarrow> error + check_result" where
  "CommandHandler_check_update h update =
     (case effective_message update of
        None \<Rightarrow> Inr NoMatch
      | Some message \<Rightarrow>
          (case msg_entities message of
             [] \<Rightarrow> Inr NoMatch
           | e # _ \<Rightarrow>
               if ent_type e = BOT_COMMAND \<and> ent_offset e = 0
               then
                 (case msg_text message of
                    None \<Rightarrow> Inl TypeError
                  | Some t \<Rightarrow>
                      let cmd = split_sep CHR ''@'' (slice t 1 (ent_length e))
                                  @ [bot_username message];
                          args = drop 1 (str_split t)
                      in if \<not> (lower (cmd ! 0) \<in> set (command h)
                                 \<and> lower (cmd ! 1) = lower (bot_username message))
                         then Inr NoMatch
                         else
                           let filter_result = filters h update
                           in if truthy filter_result
                              then Inr (Matched args filter_result)
                              else Inr Rejected)
               else Inr NoMatch))"

section \<open>The callback context\<close>

text \<open>
  The value of \<^verbatim>\<open>InlineQueryHandler.check_update\<close>: \<^verbatim>\<open>None\<close>, \<^verbatim>\<open>True\<close>, or the match
  object.
\<close>

datatype iq_result = IQ_None | IQ_True | IQ_Match Match

text \<open>
  Modelled from the spec: \<^verbatim>\<open>telegram.ext.CallbackContext\<close> is not among the sources. The
  context is the namespace of its attributes, a map from attribute names to values: the
  list a command handler binds to \<open>args\<close>, the list a pattern handler binds to \<open>matches\<close>,
  the payload a session handler binds to \<open>view_model\<close>, or a value that came out of a
  filter's dict. An attribute that is not set is \<^term>\<open>None\<close>.
\<close>

datatype 'v attribute =
  Args "string list" | Matches "iq_result list" | ViewModel 'v | FilterData string

type_synonym 'v CallbackContext = "string \<Rightarrow> 'v attribute option"

text \<open>Reading \<^verbatim>\<open>context.args\<close>, \<^verbatim>\<open>context.matches\<close> and \<^verbatim>\<open>context.view_model\<close> as what the
  handlers bind there.\<close>

definition args :: "'v CallbackContext \<Rightarrow> string list option" where
  "args context = (case context ''args'' of Some (Args a) \<Rightarrow> Some a | _ \<Rightarrow> None)"

definition matches :: "'v CallbackContext \<Rightarrow> iq_result list option" where
  "matches context = (case context ''matches'' of Some (Matches l) \<Rightarrow> Some l | _ \<Rightarrow> None)"

definition view_model :: "'v CallbackContext \<Rightarrow> 'v option" where
  "view_model context = (case context ''view_model'' of Some (ViewModel v) \<Rightarrow> Some v | _ \<Rightarrow> None)"

text \<open>
  Modelled from the spec: \<^verbatim>\<open>CallbackContext.update\<close>, which merges the keys of a filter's
  dict into the context itself, so a key replaces an attribute of the same name.
\<close>

definition context_update ::
  "'v CallbackContext \<Rightarrow> (string \<times> string) list \<Rightarrow> 'v CallbackContext" where
  "context_update context d = context ++ map_of (map (\<lambda>(k, v). (k, FilterData v)) d)"

text \<open>
  \<^verbatim>\<open>collect_additional_context\<close> of CommandHandler and of PrefixHandler (the two bodies
  are the same): subscripting \<^verbatim>\<open>None\<close> or \<^verbatim>\<open>False\<close> raises.
\<close>

fun CommandHandler_collect_additional_context ::
  "'v CallbackContext \<Rightarrow> check_result \<Rightarrow> error + 'v CallbackContext" where
  "CommandHandler_collect_additional_context context (Matched a fr) =
     (let context1 = context(''args'' \<mapsto> Args a)
      in case fr of
           FDict d \<Rightarrow> Inr (context_update context1 d)
         | _ \<Rightarrow> Inr context1)"
| "CommandHandler_collect_additional_context context _ = Inl TypeError"

section \<open>PrefixHandler\<close>

record PrefixHandler = CommandHandler +
  prefix :: "string list"

definition PrefixHandler_init ::
  "Filters \<Rightarrow> str_or_list \<Rightarrow> str_or_list \<Rightarrow> filter option \<Rightarrow> error + PrefixHandler" where
  "PrefixHandler_init F pfx cmd flt =
     (case CommandHandler_init F (Str ''nocommand'') flt of
        Inl e \<Rightarrow> Inl e
      | Inr h \<Rightarrow>
          let ps = (case pfx of Str p \<Rightarrow> [lower p] | StrList l \<Rightarrow> l);
              cs = (case cmd of Str c \<Rightarrow> [lower c] | StrList l \<Rightarrow> l)
          in Inr \<lparr>command = concat (map (\<lambda>x. map (\<lambda>y. lower x @ lower y) cs) ps),
                  filters = filters h,
                  prefix = ps\<rparr>)"

definition PrefixHandler_check_update ::
  "'a CommandHandler_scheme \<Rightarrow> Update \<Rightarrow> error + check_result" where
  "PrefixHandler_check_update h update =
     (case effective_message update of
        None \<Rightarrow> Inr NoMatch
      | Some message \<Rightarrow>
          (case msg_text message of
             None \<Rightarrow> Inr NoMatch
           | Some t \<Rightarrow>
               if t = [] then Inr NoMatch
               else
                 let text_list = str_split t
                 in (case text_list of
                       [] \<Rightarrow> Inl IndexError
                     | tok # rest \<Rightarrow>
                         if lower tok \<notin> set (command h) then Inr NoMatch
                         else
                           let filter_result = filters h update
                           in if truthy filter_result
                              then Inr (Matched rest filter_result)
                              else Inr Rejected)))"

section \<open>InlineQueryHandler\<close>

text \<open>
  The constructor compiles a pattern given as a string; \<^verbatim>\<open>re.compile\<close> is a parameter
  (it raises on a malformed pattern). A compiled pattern object is always true, so
  \<^verbatim>\<open>if self.pattern:\<close> asks whether a pattern was given.
\<close>

record InlineQueryHandler =
  pattern :: "regex option"

datatype pattern_arg = PatternStr string | PatternObj regex

definition InlineQueryHandler_init ::
  "(string \<Rightarrow> error + regex) \<Rightarrow> pattern_arg option \<Rightarrow> error + InlineQueryHandler" where
  "InlineQueryHandler_init re_compile p =
     (case p of
        None \<Rightarrow> Inr \<lparr>pattern = None\<rparr>
      | Some (PatternObj r) \<Rightarrow> Inr \<lparr>pattern = Some r\<rparr>
      | Some (PatternStr s) \<Rightarrow>
          (case re_compile s of
             Inl e \<Rightarrow> Inl e
           | Inr r \<Rightarrow> Inr \<lparr>pattern = Some r\<rparr>))"

definition InlineQueryHandler_check_update :: "InlineQueryHandler \<Rightarrow> Update \<Rightarrow> iq_result" where
  "InlineQueryHandler_check_update h update =
     (case inline_query update of
        None \<Rightarrow> IQ_None
      | Some iq \<Rightarrow>
          (case pattern h of
             Some p \<Rightarrow>
               if query iq \<noteq> []
               then (case re_match p (query iq) of
                       Some m \<Rightarrow> IQ_Match m
                     | None \<Rightarrow> IQ_None)
               else IQ_None
           | None \<Rightarrow> IQ_True))"

definition InlineQueryHandler_collect_additional_context ::
  "InlineQueryHandler \<Rightarrow> 'v CallbackContext \<Rightarrow> iq_result \<Rightarrow> 'v CallbackContext" where
  "InlineQueryHandler_collect_additional_context h context check_result =
     (if pattern h \<noteq> None then context(''matches'' \<mapsto> Matches [check_result])
      else context)"

section \<open>InlineActionHandler\<close>

text \<open>
  The session registry (\<^verbatim>\<open>dispatcher.callback_manager\<close>) is an external collaborator:
  its two lookups are fields of a record, each returning \<^term>\<open>None\<close> for Python's
  \<^verbatim>\<open>None\<close>. \<^verbatim>\<open>get_action_id\<close> is a parameter of the constructor.
\<close>

record 'v CallbackItem =
  model_data :: 'v

record ('a, 'v) CallbackManager =
  peek_action :: "string \<Rightarrow> 'a option"
  lookup_chat_bound_callback :: "int \<Rightarrow> string option \<Rightarrow> 'v CallbackItem option"

record ('a, 'v) Dispatcher =
  callback_manager :: "('a, 'v) CallbackManager"

record 'a InlineActionHandler =
  action_id :: 'a

definition InlineActionHandler_init :: "('b \<Rightarrow> 'a) \<Rightarrow> 'b \<Rightarrow> 'a InlineActionHandler" where
  "InlineActionHandler_init get_action_id action = \<lparr>action_id = get_action_id action\<rparr>"

text \<open>\<^verbatim>\<open>check_update\<close> returns \<^verbatim>\<open>None\<close> or the boolean \<^verbatim>\<open>action == self.action_id\<close>.\<close>

definition InlineActionHandler_check_update ::
  "'a InlineActionHandler \<Rightarrow> Update \<Rightarrow> ('a, 'v) Dispatcher \<Rightarrow> bool option" where
  "InlineActionHandler_check_update h update dispatcher =
     (case callback_query update of
        None \<Rightarrow> None
      | Some cq \<Rightarrow>
          (case data cq of
             None \<Rightarrow> None
           | Some d \<Rightarrow>
               if d = [] then None
               else Some (peek_action (callback_manager dispatcher) d = Some (action_id h))))"

text \<open>
  \<^verbatim>\<open>collect_additional_context\<close>: reading \<^verbatim>\<open>.id\<close>, \<^verbatim>\<open>.data\<close> or \<^verbatim>\<open>.model_data\<close> of \<^verbatim>\<open>None\<close>
  raises AttributeError, in the order the source evaluates them.
\<close>

definition InlineActionHandler_collect_additional_context ::
  "'v CallbackContext \<Rightarrow> Update \<Rightarrow> ('a, 'v) Dispatcher \<Rightarrow> error + 'v CallbackContext" where
  "InlineActionHandler_collect_additional_context context update dispatcher =
     (case effective_chat update of
        None \<Rightarrow> Inl AttributeError
      | Some chat \<Rightarrow>
          (case callback_query update of
             None \<Rightarrow> Inl AttributeError
           | Some cq \<Rightarrow>
               (case lookup_chat_bound_callback (callback_manager dispatcher)
                       (chat_id chat) (data cq) of
                  None \<Rightarrow> Inl AttributeError
                | Some callback_item \<Rightarrow>
                    Inr (context(''view_model'' \<mapsto> ViewModel (model_data callback_item))))))"

section \<open>Sample inputs\<close>

text \<open>The strings a \<^verbatim>\<open>command\<close> or \<^verbatim>\<open>prefix\<close> argument holds.\<close>

fun strs :: "str_or_list \<Rightarrow> string list" where
  "strs (Str s) = [s]"
| "strs (StrList l) = l"

text \<open>
  Sample inputs: a message update whose text carries one bot-command entity of the given
  length at offset 0, sent to the bot \<^verbatim>\<open>botname\<close>; a message update with plain text; an
  inline-query update; a callback-query update from a chat; two constant filters; and a
  \<^verbatim>\<open>Filters\<close> whose default passes updates with a message and whose \<^verbatim>\<open>&\<close> short-circuits.
\<close>

definition command_update :: "string \<Rightarrow> int \<Rightarrow> Update" where
  "command_update t n =
     \<lparr>effective_message =
        Some \<lparr>msg_text = Some t,
              msg_entities = [\<lparr>ent_type = BOT_COMMAND, ent_offset = 0, ent_length = n\<rparr>],
              bot_username = ''botname''\<rparr>,
      inline_query = None, callback_query = None, effective_chat = None\<rparr>"

definition text_update :: "string \<Rightarrow> Update" where
  "text_update t =
     \<lparr>effective_message = Some \<lparr>msg_text = Some t, msg_entities = [], bot_username = ''botname''\<rparr>,
      inline_query = None, callback_query = None, effective_chat = None\<rparr>"

definition inline_update :: "string \<Rightarrow> Update" where
  "inline_update q =
     \<lparr>effective_message = None, inline_query = Some \<lparr>query = q\<rparr>,
      callback_query = None, effective_chat = None\<rparr>"

definition callback_update :: "string \<Rightarrow> int \<Rightarrow> Update" where
  "callback_update d c =
     \<lparr>effective_message = None, inline_query = None,
      callback_query = Some \<lparr>data = Some d\<rparr>, effective_chat = Some \<lparr>chat_id = c\<rparr>\<rparr>"

definition accept_all :: filter where
  "accept_all = (\<lambda>u. FBool True)"

definition reject_all :: filter where
  "reject_all = (\<lambda>u. FBool False)"

definition sample_Filters :: Filters where
  "sample_Filters =
     \<lparr>update_messages = (\<lambda>u. FBool (effective_message u \<noteq> None)),
      and_filter = (\<lambda>a b u. if truthy (a u) then b u else a u)\<rparr>"

text \<open>A registry in which the token \<^verbatim>\<open>tok123\<close> peeks to action 7 and no record is bound.\<close>

definition desynced :: "(nat, string) Dispatcher" where
  "desynced =
     \<lparr>callback_manager =
        \<lparr>peek_action = (\<lambda>d. if d = ''tok123'' then Some 7 else None),
         lookup_chat_bound_callback = (\<lambda>c d. None)\<rparr>\<rparr>"

definition empty_context :: "string CallbackContext" where
  "empty_context = (\<lambda>name. None)"

section \<open>Evaluation and basic facts\<close>

lemmas py_eval =
  lower_def lower_char_def char_of_def bit_Suc_0_iff isspace_def str_split_def slice_def
  is_command_char_def command_re_match_def
  args_def matches_def view_model_def context_update_def
  command_update_def text_update_def inline_update_def callback_update_def
  accept_all_def reject_all_def sample_Filters_def desynced_def empty_context_def
  re_match_def re_search_def re_fullmatch_def match_at_def

lemma args_bound: "args (context(''args'' \<mapsto> Args a)) = Some a"
  by (simp add: args_def)

lemma matches_bound: "matches (context(''matches'' \<mapsto> Matches l)) = Some l"
  by (simp add: matches_def)

lemma view_model_bound: "view_model (context(''view_model'' \<mapsto> ViewModel v)) = Some v"
  by (simp add: view_model_def)

lemma split_sep_not_Nil: "split_sep d s \<noteq> []"
  by (induction s) (auto split: list.splits)

lemma of_char_lt_256: "(of_char c :: nat) < 256"
  by (rule order_less_le_trans[OF _ order_refl], cases c) simp

lemma lower_char_idem: "lower_char (lower_char c) = lower_char c"
  using of_char_lt_256[of c] by (auto simp: lower_char_def Let_def)

lemma lower_idem: "lower (lower s) = lower s"
  by (simp add: lower_def lower_char_idem)

text \<open>Python's \<^verbatim>\<open>$\<close>: a token that ends in one newline passes the check as well.\<close>

lemma command_re_match_trailing_newline:
  "command_re_match (lower (''Start'' @ [CHR 0x0A]))"
  by (simp add: py_eval)

lemma validate_Inl_iff:
  "validate cs = Inl e \<longleftrightarrow> e = ValueError \<and> (\<exists>c\<in>set cs. \<not> command_re_match c)"
  by (induction cs) auto

lemma validate_Inr_iff: "validate cs = Inr x \<longleftrightarrow> (\<forall>c\<in>set cs. command_re_match c)"
  by (induction cs) auto

section \<open>CommandHandler: validation at construction\<close>

text \<open>
  C6. The claim is that the constructor raises ValueError exactly when a token fails
  \<^verbatim>\<open>^[a-z0-9_]{1,32}$\<close> case-insensitively. The source lower-cases the token and tests it
  against \<^verbatim>\<open>^[\da-z_]{1,32}$\<close>, and in Python 3 \<^verbatim>\<open>\d\<close> matches the decimal digits of every
  script: a token of three Arabic-Indic digits passes the constructor, although it fails the
  pattern of the claim. That token is not a string of this model. What the constructor does
  on the model's strings is the lemma below: it raises ValueError exactly when the source's
  test fails on some lower-cased token, and otherwise keeps the lower-cased tokens.
\<close>

lemma CommandHandler_init_cases:
  "CommandHandler_init F cmd flt =
     (if \<exists>t\<in>set (strs cmd). \<not> command_re_match (lower t) then Inl ValueError
      else Inr \<lparr>command = map lower (strs cmd),
                filters = (case flt of Some f \<Rightarrow> and_filter F (update_messages F) f
                           | None \<Rightarrow> update_messages F)\<rparr>)"
proof -
  have cmds: "(case cmd of Str c \<Rightarrow> [lower c] | StrList cs \<Rightarrow> map lower cs) = map lower (strs cmd)"
    by (cases cmd) simp_all
  have bad: "(\<exists>c\<in>set (map lower (strs cmd)). \<not> command_re_match c)
               \<longleftrightarrow> (\<exists>t\<in>set (strs cmd). \<not> command_re_match (lower t))"
    by simp
  show ?thesis
  proof (cases "validate (map lower (strs cmd))")
    case (Inl e)
    then have "e = ValueError \<and> (\<exists>t\<in>set (strs cmd). \<not> command_re_match (lower t))"
      using bad by (simp add: validate_Inl_iff)
    then show ?thesis
      by (simp add: CommandHandler_init_def cmds Inl)
  next
    case (Inr x)
    then have "\<not> (\<exists>t\<in>set (strs cmd). \<not> command_re_match (lower t))"
      using bad by (simp add: validate_Inr_iff)
    then show ?thesis
      by (simp add: CommandHandler_init_def cmds Inr)
  qed
qed

section \<open>PrefixHandler: construction and whitespace-only text\<close>

lemma split_from_all_space: "\<forall>c\<in>set s. isspace c \<Longrightarrow> split_from [] s = []"
  by (induction s) auto

lemma PrefixHandler_init_eq:
  "PrefixHandler_init F pfx cmd flt =
     Inr \<lparr>command = concat (map (\<lambda>x. map (\<lambda>y. lower x @ lower y) (strs cmd)) (strs pfx)),
          filters = (case flt of Some f \<Rightarrow> and_filter F (update_messages F) f
                     | None \<Rightarrow> update_messages F),
          prefix = (case pfx of Str p \<Rightarrow> [lower p] | StrList l \<Rightarrow> l)\<rparr>"
proof -
  have ok: "\<not> (\<exists>t\<in>set (strs (Str ''nocommand'')). \<not> command_re_match (lower t))"
    by (simp add: py_eval)
  have parent: "CommandHandler_init F (Str ''nocommand'') flt =
      Inr \<lparr>command = map lower (strs (Str ''nocommand'')),
           filters = (case flt of Some f \<Rightarrow> and_filter F (update_messages F) f
                      | None \<Rightarrow> update_messages F)\<rparr>"
    unfolding CommandHandler_init_cases using ok by (simp only: if_False)
  show ?thesis
    unfolding PrefixHandler_init_def parent
    by (cases pfx; cases cmd) (simp_all add: lower_idem)
qed

text \<open>
  C10. Constructing a PrefixHandler never raises, whatever the prefix and command strings:
  the parent constructor is run on the fixed placeholder \<^verbatim>\<open>nocommand\<close>, which passes its
  check, and the command list is then overwritten with the unvalidated cross product. So
  tokens the CommandHandler constructor rejects (\<^verbatim>\<open>ab cd\<close>, or 33 characters) are accepted.
\<close>

theorem PrefixHandler_init_never_raises:
  "(\<exists>h. PrefixHandler_init F pfx cmd flt = Inr h
         \<and> command h = concat (map (\<lambda>x. map (\<lambda>y. lower x @ lower y) (strs cmd)) (strs pfx)))
   \<and> CommandHandler_init F (Str ''ab cd'') flt = Inl ValueError
   \<and> (\<exists>h. PrefixHandler_init F (Str ''!'') (Str ''ab cd'') flt = Inr h
          \<and> command h = [''!ab cd''])
   \<and> CommandHandler_init F (Str ''aaaaaaaaaaaaaaaaaaaaaaaaaaaaaaaaa'') flt = Inl ValueError
   \<and> (\<exists>h. PrefixHandler_init F (Str ''!'') (Str ''aaaaaaaaaaaaaaaaaaaaaaaaaaaaaaaaa'') flt = Inr h
          \<and> command h = [''!aaaaaaaaaaaaaaaaaaaaaaaaaaaaaaaaa''])"
proof -
  have a: "\<exists>h. PrefixHandler_init F pfx cmd flt = Inr h
         \<and> command h = concat (map (\<lambda>x. map (\<lambda>y. lower x @ lower y) (strs cmd)) (strs pfx))"
    by (simp add: PrefixHandler_init_eq)
  have b: "CommandHandler_init F (Str ''ab cd'') flt = Inl ValueError"
    by (simp add: CommandHandler_init_cases py_eval)
  have c: "\<exists>h. PrefixHandler_init F (Str ''!'') (Str ''ab cd'') flt = Inr h
          \<and> command h = [''!ab cd'']"
    by (simp add: PrefixHandler_init_eq py_eval)
  have d: "CommandHandler_init F (Str ''aaaaaaaaaaaaaaaaaaaaaaaaaaaaaaaaa'') flt = Inl ValueError"
    by (simp add: CommandHandler_init_cases py_eval)
  have e: "\<exists>h. PrefixHandler_init F (Str ''!'') (Str ''aaaaaaaaaaaaaaaaaaaaaaaaaaaaaaaaa'') flt = Inr h
          \<and> command h = [''!aaaaaaaaaaaaaaaaaaaaaaaaaaaaaaaaa'']"
    by (simp add: PrefixHandler_init_eq py_eval)
  show ?thesis
    by (intro conjI) (rule a b c d e)+
qed

theorem PrefixHandler_init_never_raises_witness:
  "\<exists>h. PrefixHandler_init sample_Filters (StrList [''!'', ''a b'']) (StrList [''Te st'', ''x'']) None = Inr h
        \<and> command h = [''!te st'', ''!x'', ''a bte st'', ''a bx'']"
proof -
  note t = PrefixHandler_init_never_raises
      [of sample_Filters "StrList [''!'', ''a b'']" "StrList [''Te st'', ''x'']" None,
       THEN conjunct1]
  then obtain h where h: "PrefixHandler_init sample_Filters (StrList [''!'', ''a b'']) (StrList [''Te st'', ''x'']) None = Inr h"
    and c: "command h = concat (map (\<lambda>x. map (\<lambda>y. lower x @ lower y) (strs (StrList [''Te st'', ''x''])))
              (strs (StrList [''!'', ''a b''])))"
    by (elim exE conjE)
  from c have "command h = [''!te st'', ''!x'', ''a bte st'', ''a bx'']"
    by (simp add: py_eval)
  with h show ?thesis by (intro exI conjI)
qed

text \<open>
  C9. The claim is that \<^verbatim>\<open>PrefixHandler.check_update\<close> returns a result without raising
  for every message with non-empty text, whitespace-only text included. The source guards
  only the empty text: on a non-empty text made of whitespace \<^verbatim>\<open>split()\<close> is the empty
  list and reading \<^verbatim>\<open>text_list[0]\<close> raises IndexError.
\<close>

theorem PrefixHandler_whitespace_text_raises:
  assumes "effective_message u = Some m" and "msg_text m = Some t"
    and "t \<noteq> []" and "\<forall>c\<in>set t. isspace c"
  shows "PrefixHandler_check_update h u = Inl IndexError"
  using assms
  by (simp add: PrefixHandler_check_update_def str_split_def split_from_all_space)

theorem PrefixHandler_whitespace_text_raises_witness:
  "PrefixHandler_check_update
     \<lparr>command = [''!test''], filters = accept_all, prefix = [''!'']\<rparr> (text_update '' '')
   = Inl IndexError"
proof -
  have m: "effective_message (text_update '' '')
             = Some \<lparr>msg_text = Some '' '', msg_entities = [], bot_username = ''botname''\<rparr>"
    by (simp add: text_update_def)
  have t: "msg_text \<lparr>msg_text = Some '' '', msg_entities = [], bot_username = ''botname''\<rparr> = Some '' ''"
    by simp
  have ne: "'' '' \<noteq> []" by simp
  have sp: "\<forall>c\<in>set '' ''. isspace c"
    by (simp add: isspace_def)
  show ?thesis
    by (rule PrefixHandler_whitespace_text_raises[OF m t ne sp])
qed

section \<open>Splitting on whitespace\<close>

text \<open>
  What \<^term>\<open>str_split\<close> computes: every token is non-empty and free of whitespace, and the
  four equations below fix the result on every text (leading whitespace is skipped; a
  maximal run of other characters is one token).
\<close>

lemma split_from_tokens:
  "\<forall>c\<in>set cur. \<not> isspace c \<Longrightarrow> tok \<in> set (split_from cur s)
     \<Longrightarrow> tok \<noteq> [] \<and> (\<forall>c\<in>set tok. \<not> isspace c)"
proof (induction s arbitrary: cur)
  case Nil
  then show ?case by (cases "cur = []") simp_all
next
  case (Cons c cs)
  show ?case
  proof (cases "isspace c")
    case True
    show ?thesis
    proof (cases "cur = []")
      case e: True
      with True Cons.prems have "tok \<in> set (split_from [] cs)" by simp
      then show ?thesis using Cons.IH[of "[]"] by simp
    next
      case e: False
      with True Cons.prems have "tok = cur \<or> tok \<in> set (split_from [] cs)" by simp
      then show ?thesis
      proof
        assume "tok = cur"
        with e Cons.prems(1) show ?thesis by simp
      next
        assume "tok \<in> set (split_from [] cs)"
        then show ?thesis using Cons.IH[of "[]"] by simp
      qed
    qed
  next
    case False
    with Cons.prems have "tok \<in> set (split_from (cur @ [c]) cs)" by simp
    moreover from False Cons.prems(1) have "\<forall>x\<in>set (cur @ [c]). \<not> isspace x" by simp
    ultimately show ?thesis using Cons.IH[of "cur @ [c]"] by blast
  qed
qed

lemma str_split_tokens:
  "tok \<in> set (str_split s) \<Longrightarrow> tok \<noteq> [] \<and> (\<forall>c\<in>set tok. \<not> isspace c)"
  unfolding str_split_def using split_from_tokens[of "[]" tok s] by simp

lemma split_from_token:
  "\<forall>c\<in>set tok. \<not> isspace c \<Longrightarrow> split_from cur (tok @ s) = split_from (cur @ tok) s"
  by (induction tok arbitrary: cur) auto

lemma str_split_Nil: "str_split [] = []"
  by (simp add: str_split_def)

lemma str_split_space: "isspace c \<Longrightarrow> str_split (c # s) = str_split s"
  by (simp add: str_split_def)

lemma str_split_token_end:
  "tok \<noteq> [] \<Longrightarrow> \<forall>c\<in>set tok. \<not> isspace c \<Longrightarrow> str_split tok = [tok]"
  unfolding str_split_def using split_from_token[of tok "[]" "[]"] by simp

lemma str_split_token:
  "tok \<noteq> [] \<Longrightarrow> \<forall>c\<in>set tok. \<not> isspace c \<Longrightarrow> isspace c
     \<Longrightarrow> str_split (tok @ c # s) = tok # str_split s"
  unfolding str_split_def using split_from_token[of tok "[]" "c # s"] by simp

section \<open>PrefixHandler: recognition\<close>

text \<open>
  C5, amended. The constructor sets the command list to the lower-cased concatenations
  \<^verbatim>\<open>prefix + command\<close> over the cross product of the prefixes and the commands. On an
  update whose message text has a first whitespace-delimited token, \<^verbatim>\<open>check_update\<close>
  returns NoMatch exactly when that token, lower-cased, is not in the list; when it is in
  the list the handler's filters decide: Matched with the remaining tokens and the filter
  result when the result is truthy, Rejected when it is falsy. Entities and the bot's name
  play no part. The claim as stated (accepts exactly when the token is in the set) fails on
  an update the filters veto.
\<close>

theorem PrefixHandler_recognition:
  assumes "PrefixHandler_init F pfx cmd flt = Inr h"
  shows "command h = concat (map (\<lambda>x. map (\<lambda>y. lower x @ lower y) (strs cmd)) (strs pfx))
     \<and> (\<forall>u m t tok rest.
           effective_message u = Some m \<and> msg_text m = Some t \<and> str_split t = tok # rest \<longrightarrow>
             (PrefixHandler_check_update h u = Inr NoMatch \<longleftrightarrow> lower tok \<notin> set (command h))
             \<and> (lower tok \<in> set (command h) \<longrightarrow>
                  PrefixHandler_check_update h u =
                    Inr (if truthy (filters h u) then Matched rest (filters h u) else Rejected)))"
proof -
  have c: "command h = concat (map (\<lambda>x. map (\<lambda>y. lower x @ lower y) (strs cmd)) (strs pfx))"
    using assms by (auto simp: PrefixHandler_init_eq)
  have r: "(PrefixHandler_check_update h u = Inr NoMatch \<longleftrightarrow> lower tok \<notin> set (command h))
             \<and> (lower tok \<in> set (command h) \<longrightarrow>
                  PrefixHandler_check_update h u =
                    Inr (if truthy (filters h u) then Matched rest (filters h u) else Rejected))"
    if "effective_message u = Some m \<and> msg_text m = Some t \<and> str_split t = tok # rest"
    for u m t tok rest
  proof -
    from that have "t \<noteq> []" by (auto simp: str_split_def)
    with that show ?thesis
      by (simp add: PrefixHandler_check_update_def Let_def)
  qed
  from r have "\<forall>u m t tok rest.
           effective_message u = Some m \<and> msg_text m = Some t \<and> str_split t = tok # rest \<longrightarrow>
             (PrefixHandler_check_update h u = Inr NoMatch \<longleftrightarrow> lower tok \<notin> set (command h))
             \<and> (lower tok \<in> set (command h) \<longrightarrow>
                  PrefixHandler_check_update h u =
                    Inr (if truthy (filters h u) then Matched rest (filters h u) else Rejected))"
    by (intro allI impI)
  with c show ?thesis by (rule conjI)
qed

theorem PrefixHandler_recognition_witness:
  "\<exists>h. PrefixHandler_init sample_Filters (StrList [''!'', ''#'']) (Str ''test'') None = Inr h
     \<and> command h = [''!test'', ''#test'']
     \<and> PrefixHandler_check_update h (text_update ''!test'') = Inr (Matched [] (FBool True))
     \<and> PrefixHandler_check_update h (text_update ''#Test  a b'') = Inr (Matched [''a'', ''b''] (FBool True))
     \<and> PrefixHandler_check_update h (text_update ''test'') = Inr NoMatch
     \<and> PrefixHandler_check_update h (text_update ''!help'') = Inr NoMatch"
proof -
  obtain h where h: "PrefixHandler_init sample_Filters (StrList [''!'', ''#'']) (Str ''test'') None = Inr h"
    by (simp add: PrefixHandler_init_eq)
  note t = PrefixHandler_recognition[OF h]
  from t have c: "command h = [''!test'', ''#test'']"
    by (simp add: py_eval)
  from h have f: "filters h = update_messages sample_Filters"
    by (auto simp: PrefixHandler_init_eq)
  have tr: "filters h (text_update s) = FBool True" for s
    by (simp add: f py_eval)
  have hyp: "effective_message (text_update s) =
               Some \<lparr>msg_text = Some s, msg_entities = [], bot_username = ''botname''\<rparr>
             \<and> msg_text \<lparr>msg_text = Some s, msg_entities = [], bot_username = ''botname''\<rparr> = Some s
             \<and> str_split s = tok # rest"
    if "str_split s = tok # rest" for s tok rest
    using that by (simp add: text_update_def)
  note g = t[THEN conjunct2, rule_format, OF hyp]
  have s1: "str_split ''!test'' = ''!test'' # []" by (simp add: py_eval)
  have s2: "str_split ''#Test  a b'' = ''#Test'' # [''a'', ''b'']" by (simp add: py_eval)
  have s3: "str_split ''test'' = ''test'' # []" by (simp add: py_eval)
  have s4: "str_split ''!help'' = ''!help'' # []" by (simp add: py_eval)
  have l1: "lower ''!test'' \<in> set (command h)" by (simp add: c py_eval)
  have l2: "lower ''#Test'' \<in> set (command h)" by (simp add: c py_eval)
  have l3: "lower ''test'' \<notin> set (command h)" by (simp add: c py_eval)
  have l4: "lower ''!help'' \<notin> set (command h)" by (simp add: c py_eval)
  have r1: "PrefixHandler_check_update h (text_update ''!test'') = Inr (Matched [] (FBool True))"
    using g[OF s1, THEN conjunct2, THEN mp, OF l1] by (simp add: tr)
  have r2: "PrefixHandler_check_update h (text_update ''#Test  a b'') = Inr (Matched [''a'', ''b''] (FBool True))"
    using g[OF s2, THEN conjunct2, THEN mp, OF l2] by (simp add: tr)
  have r3: "PrefixHandler_check_update h (text_update ''test'') = Inr NoMatch"
    using g[OF s3, THEN conjunct1, THEN iffD2, OF l3] .
  have r4: "PrefixHandler_check_update h (text_update ''!help'') = Inr NoMatch"
    using g[OF s4, THEN conjunct1, THEN iffD2, OF l4] .
  show ?thesis
    by (rule exI[of _ h]) (intro conjI h c r1 r2 r3 r4)
qed

theorem PrefixHandler_accept_counterexample:
  "PrefixHandler_check_update
     \<lparr>command = [''!test'', ''#test''], filters = reject_all, prefix = [''!'', ''#'']\<rparr>
     (text_update ''!test'') = Inr Rejected"
  by (simp add: PrefixHandler_check_update_def py_eval)

section \<open>CommandHandler: the command test\<close>

lemma command_parts_nth:
  assumes "split_sep CHR ''@'' s = name # segs"
  shows "(split_sep CHR ''@'' s @ [b]) ! 0 = name"
    and "(split_sep CHR ''@'' s @ [b]) ! 1 = (if segs = [] then b else hd segs)"
  using assms by (cases segs; simp)+

lemma CommandHandler_check_update_shape:
  assumes "effective_message u = Some m" and "msg_entities m = e # es"
    and "ent_type e = BOT_COMMAND" and "ent_offset e = 0" and "msg_text m = Some t"
  shows "CommandHandler_check_update h u =
     (let cmd = split_sep CHR ''@'' (slice t 1 (ent_length e)) @ [bot_username m]
      in if lower (cmd ! 0) \<in> set (command h) \<and> lower (cmd ! 1) = lower (bot_username m)
         then Inr (if truthy (filters h u)
                   then Matched (drop 1 (str_split t)) (filters h u) else Rejected)
         else Inr NoMatch)"
  using assms by (simp add: CommandHandler_check_update_def Let_def)

text \<open>
  C1, amended. Take an update whose effective message starts with a bot-command entity at
  offset 0, whose text is present and whose command name (the part of the command substring
  before the first \<^verbatim>\<open>@\<close>), lower-cased, is in the handler's list. If the command has no
  \<^verbatim>\<open>@\<close> segment, or its \<^verbatim>\<open>@\<close> segment equals the bot's username up to case, the command test
  passes and the handler's filters decide: \<^verbatim>\<open>check_update\<close> returns Matched with the args and
  the filter result when the result is truthy, Rejected when it is falsy. If the \<^verbatim>\<open>@\<close>
  segment names another bot it returns NoMatch. The claim as stated (the update is accepted)
  fails on an update the filters veto.
\<close>

theorem CommandHandler_bot_name_addressing:
  assumes "effective_message u = Some m" and "msg_entities m = e # es"
    and "ent_type e = BOT_COMMAND" and "ent_offset e = 0" and "msg_text m = Some t"
    and "split_sep CHR ''@'' (slice t 1 (ent_length e)) = name # segs"
    and "lower name \<in> set (command h)"
  shows "(segs = [] \<or> lower (hd segs) = lower (bot_username m) \<longrightarrow>
            CommandHandler_check_update h u =
              Inr (if truthy (filters h u)
                   then Matched (drop 1 (str_split t)) (filters h u) else Rejected))
       \<and> (segs \<noteq> [] \<and> lower (hd segs) \<noteq> lower (bot_username m) \<longrightarrow>
            CommandHandler_check_update h u = Inr NoMatch)"
  unfolding CommandHandler_check_update_shape[OF assms(1-5)] Let_def
    command_parts_nth[OF assms(6)]
  using assms(7) by simp

theorem CommandHandler_bot_name_addressing_witness:
  "CommandHandler_check_update \<lparr>command = [''start''], filters = accept_all\<rparr>
      (command_update ''/start'' 6) = Inr (Matched [] (FBool True))
   \<and> CommandHandler_check_update \<lparr>command = [''start''], filters = accept_all\<rparr>
      (command_update ''/start@BotName'' 14) = Inr (Matched [] (FBool True))
   \<and> CommandHandler_check_update \<lparr>command = [''start''], filters = accept_all\<rparr>
      (command_update ''/start@othername'' 16) = Inr NoMatch"
proof -
  let ?h = "\<lparr>command = [''start''], filters = accept_all\<rparr>"
  let ?e = "\<lambda>n. \<lparr>ent_type = BOT_COMMAND, ent_offset = 0, ent_length = n\<rparr>"
  let ?m = "\<lambda>t n. \<lparr>msg_text = Some t, msg_entities = [?e n], bot_username = ''botname''\<rparr>"
  have m: "effective_message (command_update t n) = Some (?m t n)" for t n
    by (simp add: command_update_def)
  have en: "msg_entities (?m t n) = ?e n # []" for t n by simp
  have ty: "ent_type (?e n) = BOT_COMMAND" for n by simp
  have off: "ent_offset (?e n) = 0" for n by simp
  have tx: "msg_text (?m t n) = Some t" for t n by simp
  have nm: "lower ''start'' \<in> set (command ?h)" by (simp add: py_eval)
  note g = CommandHandler_bot_name_addressing[OF m en ty off tx _ nm]
  have p1: "split_sep CHR ''@'' (slice ''/start'' 1 (ent_length (?e 6))) = ''start'' # []"
    by (simp add: py_eval)
  have p2: "split_sep CHR ''@'' (slice ''/start@BotName'' 1 (ent_length (?e 14)))
              = ''start'' # [''BotName'']"
    by (simp add: py_eval)
  have p3: "split_sep CHR ''@'' (slice ''/start@othername'' 1 (ent_length (?e 16)))
              = ''start'' # [''othername'']"
    by (simp add: py_eval)
  have c1: "[] = [] \<or> lower (hd []) = lower (bot_username (?m ''/start'' 6))" by simp
  have c2: "[''BotName''] = [] \<or> lower (hd [''BotName'']) = lower (bot_username (?m ''/start@BotName'' 14))"
    by (simp add: py_eval)
  have c3: "[''othername''] \<noteq> [] \<and> lower (hd [''othername'']) \<noteq> lower (bot_username (?m ''/start@othername'' 16))"
    by (simp add: py_eval)
  have r1: "CommandHandler_check_update ?h (command_update ''/start'' 6) = Inr (Matched [] (FBool True))"
    using g[OF p1, THEN conjunct1, THEN mp, OF c1] by (simp add: py_eval)
  have r2: "CommandHandler_check_update ?h (command_update ''/start@BotName'' 14) = Inr (Matched [] (FBool True))"
    using g[OF p2, THEN conjunct1, THEN mp, OF c2] by (simp add: py_eval)
  have r3: "CommandHandler_check_update ?h (command_update ''/start@othername'' 16) = Inr NoMatch"
    using g[OF p3, THEN conjunct2, THEN mp, OF c3] .
  show ?thesis by (intro conjI r1 r2 r3)
qed

theorem CommandHandler_accept_counterexample:
  "CommandHandler_check_update \<lparr>command = [''start''], filters = reject_all\<rparr>
      (command_update ''/start'' 6) = Inr Rejected"
  by (simp add: CommandHandler_check_update_def py_eval)

section \<open>Filters: veto and extra data\<close>

lemma CommandHandler_check_update_passed:
  assumes "CommandHandler_check_update h u = Inr r" and "r \<noteq> NoMatch"
  shows "\<exists>m e es t. effective_message u = Some m \<and> msg_entities m = e # es
           \<and> ent_type e = BOT_COMMAND \<and> ent_offset e = 0 \<and> msg_text m = Some t"
proof -
  from assms obtain m where m: "effective_message u = Some m"
    by (cases "effective_message u") (simp_all add: CommandHandler_check_update_def)
  from assms m obtain e es where e: "msg_entities m = e # es"
    by (cases "msg_entities m") (simp_all add: CommandHandler_check_update_def)
  from assms m e have g: "ent_type e = BOT_COMMAND" "ent_offset e = 0"
    by (simp_all add: CommandHandler_check_update_def split: if_splits)
  from assms m e g obtain t where t: "msg_text m = Some t"
    by (cases "msg_text m") (simp_all add: CommandHandler_check_update_def)
  have "effective_message u = Some m \<and> msg_entities m = e # es
           \<and> ent_type e = BOT_COMMAND \<and> ent_offset e = 0 \<and> msg_text m = Some t"
    by (intro conjI m e g t)
  then show ?thesis
    by (intro exI)
qed

lemma PrefixHandler_check_update_passed:
  assumes "PrefixHandler_check_update p u = Inr r" and "r \<noteq> NoMatch"
  shows "\<exists>m t tok rest. effective_message u = Some m \<and> msg_text m = Some t
           \<and> str_split t = tok # rest"
proof -
  from assms obtain m where m: "effective_message u = Some m"
    by (cases "effective_message u") (simp_all add: PrefixHandler_check_update_def)
  from assms m obtain t where t: "msg_text m = Some t"
    by (cases "msg_text m") (simp_all add: PrefixHandler_check_update_def)
  from assms m t have ne: "t \<noteq> []"
    by (cases "t = []") (simp_all add: PrefixHandler_check_update_def)
  from assms m t ne obtain tok rest where s: "str_split t = tok # rest"
    by (cases "str_split t") (simp_all add: PrefixHandler_check_update_def)
  have "effective_message u = Some m \<and> msg_text m = Some t \<and> str_split t = tok # rest"
    by (intro conjI m t s)
  then show ?thesis
    by (intro exI)
qed

lemma PrefixHandler_check_update_token:
  assumes "effective_message u = Some m" and "msg_text m = Some t"
    and "str_split t = tok # rest"
  shows "PrefixHandler_check_update p u =
     (if lower tok \<in> set (command p)
      then Inr (if truthy (filters p u) then Matched rest (filters p u) else Rejected)
      else Inr NoMatch)"
proof -
  from assms(3) have "t \<noteq> []" by (auto simp: str_split_def)
  with assms show ?thesis
    by (simp add: PrefixHandler_check_update_def Let_def)
qed

text \<open>
  C2. \<^verbatim>\<open>check_update\<close> keeps the two refusals apart. For a CommandHandler: when the
  command test passes (a bot-command entity at offset 0, the command name in the handler's
  list, the bot name right) a falsy filter result gives Rejected (\<^verbatim>\<open>False\<close>) and a truthy one
  gives Matched with the args and the filter result; when the command name or the bot name
  is wrong, or there is no message or no bot-command entity at offset 0, it gives NoMatch
  (\<^verbatim>\<open>None\<close>), whatever the filters say; and Rejected is returned only when the command test
  passed and the filters are falsy. For a PrefixHandler the same holds with the first
  whitespace-delimited token of the text in place of the command test.
\<close>

theorem filter_veto_is_Rejected:
  "(effective_message u = Some m \<and> msg_entities m = e # es \<and> ent_type e = BOT_COMMAND
      \<and> ent_offset e = 0 \<and> msg_text m = Some t
      \<and> cmd = split_sep CHR ''@'' (slice t 1 (ent_length e)) @ [bot_username m]
      \<and> lower (cmd ! 0) \<in> set (command h) \<and> lower (cmd ! 1) = lower (bot_username m)
    \<longrightarrow> (\<not> truthy (filters h u) \<longrightarrow>
            CommandHandler_check_update h u = Inr Rejected
            \<and> CommandHandler_check_update h u \<noteq> Inr NoMatch)
       \<and> (truthy (filters h u) \<longrightarrow>
            CommandHandler_check_update h u = Inr (Matched (drop 1 (str_split t)) (filters h u))))
   \<and> (effective_message u' = Some m' \<and> msg_text m' = Some t' \<and> str_split t' = tok # rest
      \<and> lower tok \<in> set (command p)
    \<longrightarrow> (\<not> truthy (filters p u') \<longrightarrow>
            PrefixHandler_check_update p u' = Inr Rejected
            \<and> PrefixHandler_check_update p u' \<noteq> Inr NoMatch)
       \<and> (truthy (filters p u') \<longrightarrow>
            PrefixHandler_check_update p u' = Inr (Matched rest (filters p u'))))
   \<and> (effective_message u = Some m \<and> msg_entities m = e # es \<and> ent_type e = BOT_COMMAND
      \<and> ent_offset e = 0 \<and> msg_text m = Some t
      \<and> cmd = split_sep CHR ''@'' (slice t 1 (ent_length e)) @ [bot_username m]
      \<and> \<not> (lower (cmd ! 0) \<in> set (command h) \<and> lower (cmd ! 1) = lower (bot_username m))
    \<longrightarrow> CommandHandler_check_update h u = Inr NoMatch)
   \<and> (effective_message u = None
      \<or> (\<exists>m. effective_message u = Some m
            \<and> (msg_entities m = []
               \<or> (\<exists>e es. msg_entities m = e # es
                     \<and> \<not> (ent_type e = BOT_COMMAND \<and> ent_offset e = 0))))
    \<longrightarrow> CommandHandler_check_update h u = Inr NoMatch)
   \<and> (CommandHandler_check_update h u = Inr Rejected
    \<longrightarrow> \<not> truthy (filters h u)
       \<and> (\<exists>m e es t. effective_message u = Some m \<and> msg_entities m = e # es
             \<and> ent_type e = BOT_COMMAND \<and> ent_offset e = 0 \<and> msg_text m = Some t
             \<and> lower ((split_sep CHR ''@'' (slice t 1 (ent_length e)) @ [bot_username m]) ! 0)
                 \<in> set (command h)
             \<and> lower ((split_sep CHR ''@'' (slice t 1 (ent_length e)) @ [bot_username m]) ! 1)
                 = lower (bot_username m)))
   \<and> (effective_message u' = Some m' \<and> msg_text m' = Some t' \<and> str_split t' = tok # rest
      \<and> lower tok \<notin> set (command p)
    \<longrightarrow> PrefixHandler_check_update p u' = Inr NoMatch)
   \<and> (effective_message u' = None
      \<or> (\<exists>m. effective_message u' = Some m \<and> (msg_text m = None \<or> msg_text m = Some []))
    \<longrightarrow> PrefixHandler_check_update p u' = Inr NoMatch)
   \<and> (PrefixHandler_check_update p u' = Inr Rejected
    \<longrightarrow> \<not> truthy (filters p u')
       \<and> (\<exists>m t tok rest. effective_message u' = Some m \<and> msg_text m = Some t
             \<and> str_split t = tok # rest \<and> lower tok \<in> set (command p)))"
proof -
  have c1: "(\<not> truthy (filters h u) \<longrightarrow>
            CommandHandler_check_update h u = Inr Rejected
            \<and> CommandHandler_check_update h u \<noteq> Inr NoMatch)
       \<and> (truthy (filters h u) \<longrightarrow>
            CommandHandler_check_update h u = Inr (Matched (drop 1 (str_split t)) (filters h u)))"
    if "effective_message u = Some m \<and> msg_entities m = e # es \<and> ent_type e = BOT_COMMAND
      \<and> ent_offset e = 0 \<and> msg_text m = Some t
      \<and> cmd = split_sep CHR ''@'' (slice t 1 (ent_length e)) @ [bot_username m]
      \<and> lower (cmd ! 0) \<in> set (command h) \<and> lower (cmd ! 1) = lower (bot_username m)"
  proof -
    from that have a: "effective_message u = Some m" "msg_entities m = e # es"
      "ent_type e = BOT_COMMAND" "ent_offset e = 0" "msg_text m = Some t" by simp_all
    from that have c: "cmd = split_sep CHR ''@'' (slice t 1 (ent_length e)) @ [bot_username m]"
      "lower (cmd ! 0) \<in> set (command h)" "lower (cmd ! 1) = lower (bot_username m)"
      by blast+
    from c(2,3) show ?thesis
      unfolding c(1) by (simp add: CommandHandler_check_update_shape[OF a] Let_def)
  qed
  have p1: "(\<not> truthy (filters p u') \<longrightarrow>
            PrefixHandler_check_update p u' = Inr Rejected
            \<and> PrefixHandler_check_update p u' \<noteq> Inr NoMatch)
       \<and> (truthy (filters p u') \<longrightarrow>
            PrefixHandler_check_update p u' = Inr (Matched rest (filters p u')))"
    if "effective_message u' = Some m' \<and> msg_text m' = Some t' \<and> str_split t' = tok # rest
      \<and> lower tok \<in> set (command p)"
  proof -
    from that have a: "effective_message u' = Some m'" "msg_text m' = Some t'"
      "str_split t' = tok # rest" by simp_all
    from that show ?thesis
      by (simp add: PrefixHandler_check_update_token[OF a])
  qed
  have c2: "CommandHandler_check_update h u = Inr NoMatch"
    if "effective_message u = Some m \<and> msg_entities m = e # es \<and> ent_type e = BOT_COMMAND
      \<and> ent_offset e = 0 \<and> msg_text m = Some t
      \<and> cmd = split_sep CHR ''@'' (slice t 1 (ent_length e)) @ [bot_username m]
      \<and> \<not> (lower (cmd ! 0) \<in> set (command h) \<and> lower (cmd ! 1) = lower (bot_username m))"
  proof -
    from that have a: "effective_message u = Some m" "msg_entities m = e # es"
      "ent_type e = BOT_COMMAND" "ent_offset e = 0" "msg_text m = Some t" by simp_all
    from that have c: "cmd = split_sep CHR ''@'' (slice t 1 (ent_length e)) @ [bot_username m]"
      "\<not> (lower (cmd ! 0) \<in> set (command h) \<and> lower (cmd ! 1) = lower (bot_username m))"
      by blast+
    from c(2) show ?thesis
      unfolding c(1) CommandHandler_check_update_shape[OF a] Let_def by (simp only: if_False)
  qed
  have c3: "CommandHandler_check_update h u = Inr NoMatch"
    if "effective_message u = None
      \<or> (\<exists>m. effective_message u = Some m
            \<and> (msg_entities m = []
               \<or> (\<exists>e es. msg_entities m = e # es
                     \<and> \<not> (ent_type e = BOT_COMMAND \<and> ent_offset e = 0))))"
    using that by (auto simp: CommandHandler_check_update_def)
  have c4: "\<not> truthy (filters h u)
       \<and> (\<exists>m e es t. effective_message u = Some m \<and> msg_entities m = e # es
             \<and> ent_type e = BOT_COMMAND \<and> ent_offset e = 0 \<and> msg_text m = Some t
             \<and> lower ((split_sep CHR ''@'' (slice t 1 (ent_length e)) @ [bot_username m]) ! 0)
                 \<in> set (command h)
             \<and> lower ((split_sep CHR ''@'' (slice t 1 (ent_length e)) @ [bot_username m]) ! 1)
                 = lower (bot_username m))"
    if r: "CommandHandler_check_update h u = Inr Rejected"
  proof -
    have "Rejected \<noteq> NoMatch" by simp
    from CommandHandler_check_update_passed[OF r this] obtain m e es t where
      a: "effective_message u = Some m" "msg_entities m = e # es"
         "ent_type e = BOT_COMMAND" "ent_offset e = 0" "msg_text m = Some t"
      by (elim exE conjE) (rule that, simp)
    from r have b: "\<not> truthy (filters h u)
        \<and> lower ((split_sep CHR ''@'' (slice t 1 (ent_length e)) @ [bot_username m]) ! 0)
                 \<in> set (command h)
        \<and> lower ((split_sep CHR ''@'' (slice t 1 (ent_length e)) @ [bot_username m]) ! 1)
                 = lower (bot_username m)"
      unfolding CommandHandler_check_update_shape[OF a] Let_def
      by (simp split: if_splits)
    have "effective_message u = Some m \<and> msg_entities m = e # es
             \<and> ent_type e = BOT_COMMAND \<and> ent_offset e = 0 \<and> msg_text m = Some t
             \<and> lower ((split_sep CHR ''@'' (slice t 1 (ent_length e)) @ [bot_username m]) ! 0)
                 \<in> set (command h)
             \<and> lower ((split_sep CHR ''@'' (slice t 1 (ent_length e)) @ [bot_username m]) ! 1)
                 = lower (bot_username m)"
      using a b by simp
    then have "\<exists>m e es t. effective_message u = Some m \<and> msg_entities m = e # es
             \<and> ent_type e = BOT_COMMAND \<and> ent_offset e = 0 \<and> msg_text m = Some t
             \<and> lower ((split_sep CHR ''@'' (slice t 1 (ent_length e)) @ [bot_username m]) ! 0)
                 \<in> set (command h)
             \<and> lower ((split_sep CHR ''@'' (slice t 1 (ent_length e)) @ [bot_username m]) ! 1)
                 = lower (bot_username m)"
      by (intro exI)
    with b show ?thesis by simp
  qed
  have p2: "PrefixHandler_check_update p u' = Inr NoMatch"
    if "effective_message u' = Some m' \<and> msg_text m' = Some t' \<and> str_split t' = tok # rest
      \<and> lower tok \<notin> set (command p)"
  proof -
    from that have a: "effective_message u' = Some m'" "msg_text m' = Some t'"
      "str_split t' = tok # rest" by simp_all
    from that show ?thesis
      by (simp add: PrefixHandler_check_update_token[OF a])
  qed
  have p3: "PrefixHandler_check_update p u' = Inr NoMatch"
    if "effective_message u' = None
      \<or> (\<exists>m. effective_message u' = Some m \<and> (msg_text m = None \<or> msg_text m = Some []))"
    using that by (auto simp: PrefixHandler_check_update_def)
  have p4: "\<not> truthy (filters p u')
       \<and> (\<exists>m t tok rest. effective_message u' = Some m \<and> msg_text m = Some t
             \<and> str_split t = tok # rest \<and> lower tok \<in> set (command p))"
    if r: "PrefixHandler_check_update p u' = Inr Rejected"
  proof -
    have "Rejected \<noteq> NoMatch" by simp
    from PrefixHandler_check_update_passed[OF r this] obtain m t tok rest where
      a: "effective_message u' = Some m" "msg_text m = Some t" "str_split t = tok # rest"
      by (elim exE conjE) (rule that, simp)
    from r have b: "\<not> truthy (filters p u') \<and> lower tok \<in> set (command p)"
      unfolding PrefixHandler_check_update_token[OF a]
      by (simp split: if_splits)
    have "effective_message u' = Some m \<and> msg_text m = Some t
             \<and> str_split t = tok # rest \<and> lower tok \<in> set (command p)"
      using a b by simp
    then have "\<exists>m t tok rest. effective_message u' = Some m \<and> msg_text m = Some t
             \<and> str_split t = tok # rest \<and> lower tok \<in> set (command p)"
      by (intro exI)
    with b show ?thesis by simp
  qed
  show ?thesis
    by (erule c1 p1 c2 c3 c4 p2 p3 p4 | rule conjI impI)+
qed

theorem filter_veto_is_Rejected_witness:
  "CommandHandler_check_update \<lparr>command = [''start''], filters = reject_all\<rparr>
      (command_update ''/start hello'' 6) = Inr Rejected
   \<and> CommandHandler_check_update \<lparr>command = [''start''], filters = reject_all\<rparr>
      (command_update ''/help hello'' 5) = Inr NoMatch
   \<and> CommandHandler_check_update \<lparr>command = [''start''], filters = (\<lambda>u. FDict [(''k'', ''v'')])\<rparr>
      (command_update ''/start hello'' 6) = Inr (Matched [''hello''] (FDict [(''k'', ''v'')]))
   \<and> PrefixHandler_check_update \<lparr>command = [''!test''], filters = (\<lambda>u. FDict [])\<rparr>
      (text_update ''!TEST hello'') = Inr Rejected
   \<and> PrefixHandler_check_update \<lparr>command = [''!test''], filters = (\<lambda>u. FDict [])\<rparr>
      (text_update ''!help hello'') = Inr NoMatch
   \<and> PrefixHandler_check_update \<lparr>command = [''!test''], filters = accept_all\<rparr>
      (text_update ''!TEST hello'') = Inr (Matched [''hello''] (FBool True))"
proof -
  let ?e = "\<lparr>ent_type = BOT_COMMAND, ent_offset = 0, ent_length = 6\<rparr>"
  let ?m = "\<lparr>msg_text = Some ''/start hello'', msg_entities = [?e], bot_username = ''botname''\<rparr>"
  let ?u = "command_update ''/start hello'' 6"
  let ?e2 = "\<lparr>ent_type = BOT_COMMAND, ent_offset = 0, ent_length = 5\<rparr>"
  let ?m2 = "\<lparr>msg_text = Some ''/help hello'', msg_entities = [?e2], bot_username = ''botname''\<rparr>"
  let ?u2 = "command_update ''/help hello'' 5"
  let ?m' = "\<lparr>msg_text = Some ''!TEST hello'', msg_entities = [], bot_username = ''botname''\<rparr>"
  let ?u' = "text_update ''!TEST hello''"
  let ?m3 = "\<lparr>msg_text = Some ''!help hello'', msg_entities = [], bot_username = ''botname''\<rparr>"
  let ?u3 = "text_update ''!help hello''"
  have hc: "effective_message ?u = Some ?m \<and> msg_entities ?m = ?e # [] \<and> ent_type ?e = BOT_COMMAND
      \<and> ent_offset ?e = 0 \<and> msg_text ?m = Some ''/start hello''
      \<and> [''start'', ''botname''] = split_sep CHR ''@'' (slice ''/start hello'' 1 (ent_length ?e)) @ [bot_username ?m]
      \<and> lower ([''start'', ''botname''] ! 0) \<in> set (command (\<lparr>command = [''start''], filters = f\<rparr>))
      \<and> lower ([''start'', ''botname''] ! 1) = lower (bot_username ?m)" for f
    by (simp add: py_eval)
  have hn: "effective_message ?u2 = Some ?m2 \<and> msg_entities ?m2 = ?e2 # [] \<and> ent_type ?e2 = BOT_COMMAND
      \<and> ent_offset ?e2 = 0 \<and> msg_text ?m2 = Some ''/help hello''
      \<and> [''help'', ''botname''] = split_sep CHR ''@'' (slice ''/help hello'' 1 (ent_length ?e2)) @ [bot_username ?m2]
      \<and> \<not> (lower ([''help'', ''botname''] ! 0) \<in> set (command (\<lparr>command = [''start''], filters = f\<rparr>))
           \<and> lower ([''help'', ''botname''] ! 1) = lower (bot_username ?m2))" for f
    by (simp add: py_eval)
  have hp: "effective_message ?u' = Some ?m' \<and> msg_text ?m' = Some ''!TEST hello''
      \<and> str_split ''!TEST hello'' = ''!TEST'' # [''hello'']
      \<and> lower ''!TEST'' \<in> set (command (\<lparr>command = [''!test''], filters = f\<rparr>))" for f
    by (simp add: py_eval)
  have hq: "effective_message ?u3 = Some ?m3 \<and> msg_text ?m3 = Some ''!help hello''
      \<and> str_split ''!help hello'' = ''!help'' # [''hello'']
      \<and> lower ''!help'' \<notin> set (command (\<lparr>command = [''!test''], filters = f\<rparr>))" for f
    by (simp add: py_eval)
  note tc = filter_veto_is_Rejected[where u = ?u and m = ?m and e = ?e and es = "[]"
      and t = "''/start hello''" and cmd = "[''start'', ''botname'']", THEN conjunct1, THEN mp]
  note tp = filter_veto_is_Rejected[where u' = ?u' and m' = ?m' and t' = "''!TEST hello''"
      and tok = "''!TEST''" and rest = "[''hello'']", THEN conjunct2, THEN conjunct1, THEN mp]
  note tn = filter_veto_is_Rejected[where u = ?u2 and m = ?m2 and e = ?e2 and es = "[]"
      and t = "''/help hello''" and cmd = "[''help'', ''botname'']",
      THEN conjunct2, THEN conjunct2, THEN conjunct1, THEN mp]
  note tq = filter_veto_is_Rejected[where u' = ?u3 and m' = ?m3 and t' = "''!help hello''"
      and tok = "''!help''" and rest = "[''hello'']",
      THEN conjunct2, THEN conjunct2, THEN conjunct2, THEN conjunct2, THEN conjunct2,
      THEN conjunct1, THEN mp]
  have r1: "CommandHandler_check_update \<lparr>command = [''start''], filters = reject_all\<rparr> ?u = Inr Rejected"
    using tc[OF hc[of reject_all]] by (simp add: reject_all_def)
  have r2: "CommandHandler_check_update \<lparr>command = [''start''], filters = reject_all\<rparr> ?u2 = Inr NoMatch"
    by (rule tn[OF hn[of reject_all]])
  have r3: "CommandHandler_check_update \<lparr>command = [''start''], filters = (\<lambda>u. FDict [(''k'', ''v'')])\<rparr> ?u
      = Inr (Matched [''hello''] (FDict [(''k'', ''v'')]))"
    using tc[OF hc[of "\<lambda>u. FDict [(''k'', ''v'')]"]] by (simp add: py_eval)
  have r4: "PrefixHandler_check_update \<lparr>command = [''!test''], filters = (\<lambda>u. FDict [])\<rparr> ?u' = Inr Rejected"
    using tp[OF hp[of "\<lambda>u. FDict []"]] by simp
  have r5: "PrefixHandler_check_update \<lparr>command = [''!test''], filters = (\<lambda>u. FDict [])\<rparr> ?u3 = Inr NoMatch"
    by (rule tq[OF hq[of "\<lambda>u. FDict []"]])
  have r6: "PrefixHandler_check_update \<lparr>command = [''!test''], filters = accept_all\<rparr> ?u'
      = Inr (Matched [''hello''] (FBool True))"
    using tp[OF hp[of accept_all]] by (simp add: accept_all_def)
  show ?thesis by (intro conjI r1 r2 r3 r4 r5 r6)
qed

section \<open>CommandHandler: the args\<close>

lemma context_update_args:
  fixes ctx :: "'v CallbackContext"
  assumes "''args'' \<notin> fst ` set d"
  shows "args (context_update ctx d) = args ctx"
proof -
  from assms
  have "map_of (map (\<lambda>(k, v). (k, FilterData v :: 'v attribute)) d) ''args'' = None"
    by (induction d) auto
  then show ?thesis
    by (simp add: args_def context_update_def map_add_def)
qed

text \<open>
  C8, amended. Whenever \<^verbatim>\<open>CommandHandler.check_update\<close> accepts an update, the args it yields
  are the message text split on runs of whitespace with the first token dropped (each arg
  non-empty and free of whitespace), and the second component is the truthy filter result.
  \<^verbatim>\<open>collect_additional_context\<close> assigns exactly this list to \<^verbatim>\<open>context.args\<close> and then, if the
  filter result is a dict, merges the dict into the context. So \<^verbatim>\<open>context.args\<close> is this list
  afterwards unless the filter's dict has a key \<^verbatim>\<open>args\<close>; with such a key the claim as stated
  fails, the merge writes the dict's value over the list.
\<close>

theorem CommandHandler_args:
  assumes "CommandHandler_check_update h u = Inr (Matched a fr)"
  shows "(\<exists>m t. effective_message u = Some m \<and> msg_text m = Some t
            \<and> a = drop 1 (str_split t))
     \<and> (\<forall>tok\<in>set a. tok \<noteq> [] \<and> (\<forall>c\<in>set tok. \<not> isspace c))
     \<and> fr = filters h u \<and> truthy fr
     \<and> CommandHandler_collect_additional_context ctx (Matched a fr) =
         Inr (case fr of
                FDict d \<Rightarrow> context_update (ctx(''args'' \<mapsto> Args a)) d
              | _ \<Rightarrow> ctx(''args'' \<mapsto> Args a))
     \<and> args (ctx(''args'' \<mapsto> Args a)) = Some a
     \<and> ((\<forall>d. fr = FDict d \<longrightarrow> ''args'' \<notin> fst ` set d) \<longrightarrow>
          (\<exists>ctx'. CommandHandler_collect_additional_context ctx (Matched a fr) = Inr ctx'
                \<and> args ctx' = Some a))"
proof -
  have "Matched a fr \<noteq> NoMatch" by simp
  from CommandHandler_check_update_passed[OF assms this] obtain m e es t where
    p: "effective_message u = Some m" "msg_entities m = e # es"
       "ent_type e = BOT_COMMAND" "ent_offset e = 0" "msg_text m = Some t"
    by (elim exE conjE) (rule that, simp)
  from assms have r: "a = drop 1 (str_split t) \<and> fr = filters h u \<and> truthy fr"
    unfolding CommandHandler_check_update_shape[OF p] Let_def
    by (simp split: if_splits)
  then have a: "a = drop 1 (str_split t)" and f: "fr = filters h u" and tr: "truthy fr"
    by blast+
  have "effective_message u = Some m \<and> msg_text m = Some t \<and> a = drop 1 (str_split t)"
    by (intro conjI p a)
  then have ex: "\<exists>m t. effective_message u = Some m \<and> msg_text m = Some t
            \<and> a = drop 1 (str_split t)"
    by (intro exI)
  have tok: "\<forall>tok\<in>set a. tok \<noteq> [] \<and> (\<forall>c\<in>set tok. \<not> isspace c)"
  proof
    fix tok assume "tok \<in> set a"
    then have "tok \<in> set (str_split t)" unfolding a by (rule in_set_dropD)
    then show "tok \<noteq> [] \<and> (\<forall>c\<in>set tok. \<not> isspace c)" by (rule str_split_tokens)
  qed
  have col: "CommandHandler_collect_additional_context ctx (Matched a fr) =
         Inr (case fr of
                FDict d \<Rightarrow> context_update (ctx(''args'' \<mapsto> Args a)) d
              | _ \<Rightarrow> ctx(''args'' \<mapsto> Args a))"
    by (cases fr) (simp_all add: Let_def)
  have bound: "args (ctx(''args'' \<mapsto> Args a)) = Some a"
    by (rule args_bound)
  have kept: "(\<forall>d. fr = FDict d \<longrightarrow> ''args'' \<notin> fst ` set d) \<longrightarrow>
          (\<exists>ctx'. CommandHandler_collect_additional_context ctx (Matched a fr) = Inr ctx'
                \<and> args ctx' = Some a)"
    unfolding col by (cases fr) (simp_all add: context_update_args args_bound)
  show ?thesis
    by (intro conjI ex tok f tr col bound kept)
qed

theorem CommandHandler_args_witness:
  "CommandHandler_check_update \<lparr>command = [''start''], filters = accept_all\<rparr>
        (command_update ''/start'' 6) = Inr (Matched [] (FBool True))
   \<and> CommandHandler_check_update \<lparr>command = [''start''], filters = accept_all\<rparr>
        (command_update ''/start hello world'' 6) = Inr (Matched [''hello'', ''world''] (FBool True))
   \<and> drop 1 (str_split ''/start hello world'') = [''hello'', ''world'']
   \<and> (\<exists>ctx'. CommandHandler_collect_additional_context empty_context
          (Matched [''hello'', ''world''] (FBool True)) = Inr ctx'
        \<and> args ctx' = Some [''hello'', ''world''])"
proof -
  have r1: "CommandHandler_check_update \<lparr>command = [''start''], filters = accept_all\<rparr>
        (command_update ''/start'' 6) = Inr (Matched [] (FBool True))"
    by (simp add: CommandHandler_check_update_def py_eval)
  have r2: "CommandHandler_check_update \<lparr>command = [''start''], filters = accept_all\<rparr>
        (command_update ''/start hello world'' 6) = Inr (Matched [''hello'', ''world''] (FBool True))"
    by (simp add: CommandHandler_check_update_def py_eval)
  have r3: "drop 1 (str_split ''/start hello world'') = [''hello'', ''world'']"
    by (simp add: py_eval)
  note t = CommandHandler_args[OF r2, where ctx = empty_context]
  have nd: "\<forall>d. FBool True = FDict d \<longrightarrow> ''args'' \<notin> fst ` set d" by simp
  have r4: "\<exists>ctx'. CommandHandler_collect_additional_context empty_context
          (Matched [''hello'', ''world''] (FBool True)) = Inr ctx'
        \<and> args ctx' = Some [''hello'', ''world'']"
    by (rule t[THEN conjunct2, THEN conjunct2, THEN conjunct2, THEN conjunct2,
          THEN conjunct2, THEN conjunct2, THEN mp, OF nd])
  show ?thesis by (intro conjI r1 r2 r3 r4)
qed

theorem CommandHandler_args_overwritten_counterexample:
  "CommandHandler_check_update
      \<lparr>command = [''start''], filters = (\<lambda>u. FDict [(''args'', ''x'')])\<rparr>
      (command_update ''/start hello'' 6)
     = Inr (Matched [''hello''] (FDict [(''args'', ''x'')]))
   \<and> CommandHandler_collect_additional_context empty_context
        (Matched [''hello''] (FDict [(''args'', ''x'')]))
     = Inr (empty_context(''args'' \<mapsto> FilterData ''x''))
   \<and> args (empty_context(''args'' \<mapsto> FilterData ''x'')) = None"
proof -
  have a: "CommandHandler_check_update
      \<lparr>command = [''start''], filters = (\<lambda>u. FDict [(''args'', ''x'')])\<rparr>
      (command_update ''/start hello'' 6)
     = Inr (Matched [''hello''] (FDict [(''args'', ''x'')]))"
    by (simp add: CommandHandler_check_update_def py_eval)
  have b: "CommandHandler_collect_additional_context empty_context
        (Matched [''hello''] (FDict [(''args'', ''x'')]))
     = Inr (empty_context(''args'' \<mapsto> FilterData ''x''))"
    by (simp add: context_update_def)
  have c: "args (empty_context(''args'' \<mapsto> FilterData ''x'')) = None"
    by (simp add: args_def)
  show ?thesis by (intro conjI a b c)
qed

section \<open>InlineQueryHandler\<close>

lemma InlineQueryHandler_check_update_pattern:
  assumes "pattern h = Some p" and "inline_query u = Some iq" and "query iq \<noteq> []"
  shows "InlineQueryHandler_check_update h u =
           (case re_match p (query iq) of Some m \<Rightarrow> IQ_Match m | None \<Rightarrow> IQ_None)"
  using assms by (simp add: InlineQueryHandler_check_update_def)

lemma re_match_Some:
  "re_match p s = Some m \<Longrightarrow> m_start m = 0 \<and> m_string m = s \<and> m_end m \<in> set (ends p s 0)"
  by (cases "ends p s 0") (auto simp: re_match_def match_at_def)

lemma re_match_None: "re_match p s = None \<longleftrightarrow> ends p s 0 = []"
  by (cases "ends p s 0") (simp_all add: re_match_def match_at_def)

text \<open>
  C3, amended. With a pattern configured, an InlineQueryHandler accepts an update only if
  it carries an inline query whose text is non-empty. With no pattern configured it accepts
  exactly the updates that carry an inline query, whatever the query text, the empty text
  included: there the claim as stated (only non-empty query text is accepted) fails.
\<close>

theorem InlineQueryHandler_accepts:
  "(pattern h = Some p \<and> InlineQueryHandler_check_update h u \<noteq> IQ_None \<longrightarrow>
      (\<exists>iq. inline_query u = Some iq \<and> query iq \<noteq> []))
   \<and> (pattern h = None \<longrightarrow>
        InlineQueryHandler_check_update h u =
          (if inline_query u = None then IQ_None else IQ_True))"
  by (cases "inline_query u") (auto simp: InlineQueryHandler_check_update_def split: if_splits)

theorem InlineQueryHandler_accepts_witness:
  "(\<exists>iq. inline_query (inline_update ''foobar'') = Some iq \<and> query iq \<noteq> [])
   \<and> InlineQueryHandler_check_update \<lparr>pattern = None\<rparr> (inline_update ''foobar'') = IQ_True"
proof -
  let ?h = "\<lparr>pattern = Some (Cat Bol (lits ''foo''))\<rparr>"
  have hyp: "pattern ?h = Some (Cat Bol (lits ''foo''))
      \<and> InlineQueryHandler_check_update ?h (inline_update ''foobar'') \<noteq> IQ_None"
    by (simp add: InlineQueryHandler_check_update_def py_eval)
  have a: "\<exists>iq. inline_query (inline_update ''foobar'') = Some iq \<and> query iq \<noteq> []"
    by (rule InlineQueryHandler_accepts[THEN conjunct1, THEN mp, OF hyp])
  have n: "pattern \<lparr>pattern = None\<rparr> = None" by simp
  have b: "InlineQueryHandler_check_update \<lparr>pattern = None\<rparr> (inline_update ''foobar'') = IQ_True"
    using InlineQueryHandler_accepts[THEN conjunct2, THEN mp, OF n, of "inline_update ''foobar''"]
    by (simp add: inline_update_def)
  show ?thesis by (intro conjI a b)
qed

theorem InlineQueryHandler_empty_query_counterexample:
  "InlineQueryHandler_check_update \<lparr>pattern = None\<rparr> (inline_update '''') = IQ_True"
  by (simp add: InlineQueryHandler_check_update_def inline_update_def)

text \<open>
  C7. For a handler with a pattern and an update whose inline query has non-empty text,
  \<^verbatim>\<open>check_update\<close> is \<^verbatim>\<open>re.match\<close> of the pattern on the query text: it accepts exactly when a
  match starts at position 0, and the match object it returns starts at 0 and is on the
  query text. On accept \<^verbatim>\<open>collect_additional_context\<close> sets \<^verbatim>\<open>context.matches\<close> to the one-element
  list holding the match; without a pattern it leaves \<^verbatim>\<open>context.matches\<close> as it was. The
  pattern \<^verbatim>\<open>^foo\<close> accepts \<^verbatim>\<open>foobar\<close> with the span starting at 0 and rejects \<^verbatim>\<open>barfoo\<close>; the
  pattern \<^verbatim>\<open>foo\<close> rejects \<^verbatim>\<open>barfoo\<close>, which a search would find, and accepts \<^verbatim>\<open>foobar\<close>, which
  a full-string match would refuse.
\<close>

theorem InlineQueryHandler_match_anchored:
  "(pattern h = Some p \<and> inline_query u = Some iq \<and> query iq \<noteq> [] \<longrightarrow>
      InlineQueryHandler_check_update h u =
        (case re_match p (query iq) of Some m \<Rightarrow> IQ_Match m | None \<Rightarrow> IQ_None)
      \<and> (InlineQueryHandler_check_update h u \<noteq> IQ_None \<longleftrightarrow> ends p (query iq) 0 \<noteq> [])
      \<and> (\<forall>m. InlineQueryHandler_check_update h u = IQ_Match m \<longrightarrow>
             m_start m = 0 \<and> m_string m = query iq \<and> m_end m \<in> set (ends p (query iq) 0)
             \<and> matches (InlineQueryHandler_collect_additional_context h ctx (IQ_Match m))
                 = Some [IQ_Match m]))
   \<and> (pattern h' = None \<longrightarrow>
        matches (InlineQueryHandler_collect_additional_context h' ctx r) = matches ctx)
   \<and> InlineQueryHandler_check_update \<lparr>pattern = Some (Cat Bol (lits ''foo''))\<rparr>
        (inline_update ''foobar'')
        = IQ_Match \<lparr>m_string = ''foobar'', m_start = 0, m_end = 3\<rparr>
   \<and> InlineQueryHandler_check_update \<lparr>pattern = Some (Cat Bol (lits ''foo''))\<rparr>
        (inline_update ''barfoo'') = IQ_None
   \<and> InlineQueryHandler_check_update \<lparr>pattern = Some (lits ''foo'')\<rparr>
        (inline_update ''barfoo'') = IQ_None
   \<and> re_search (lits ''foo'') ''barfoo''
        = Some \<lparr>m_string = ''barfoo'', m_start = 3, m_end = 6\<rparr>
   \<and> InlineQueryHandler_check_update \<lparr>pattern = Some (lits ''foo'')\<rparr>
        (inline_update ''foobar'')
        = IQ_Match \<lparr>m_string = ''foobar'', m_start = 0, m_end = 3\<rparr>
   \<and> re_fullmatch (lits ''foo'') ''foobar'' = None"
proof -
  have g: "InlineQueryHandler_check_update h u =
        (case re_match p (query iq) of Some m \<Rightarrow> IQ_Match m | None \<Rightarrow> IQ_None)
      \<and> (InlineQueryHandler_check_update h u \<noteq> IQ_None \<longleftrightarrow> ends p (query iq) 0 \<noteq> [])
      \<and> (\<forall>m. InlineQueryHandler_check_update h u = IQ_Match m \<longrightarrow>
             m_start m = 0 \<and> m_string m = query iq \<and> m_end m \<in> set (ends p (query iq) 0)
             \<and> matches (InlineQueryHandler_collect_additional_context h ctx (IQ_Match m))
                 = Some [IQ_Match m])"
    if a: "pattern h = Some p \<and> inline_query u = Some iq \<and> query iq \<noteq> []"
  proof -
    from a have eq: "InlineQueryHandler_check_update h u =
        (case re_match p (query iq) of Some m \<Rightarrow> IQ_Match m | None \<Rightarrow> IQ_None)"
      by (simp add: InlineQueryHandler_check_update_pattern)
    have acc: "InlineQueryHandler_check_update h u \<noteq> IQ_None \<longleftrightarrow> ends p (query iq) 0 \<noteq> []"
      unfolding eq using re_match_None[of p "query iq"]
      by (cases "re_match p (query iq)") simp_all
    have m: "\<forall>m. InlineQueryHandler_check_update h u = IQ_Match m \<longrightarrow>
             m_start m = 0 \<and> m_string m = query iq \<and> m_end m \<in> set (ends p (query iq) 0)
             \<and> matches (InlineQueryHandler_collect_additional_context h ctx (IQ_Match m))
                 = Some [IQ_Match m]"
    proof (intro allI impI)
      fix m assume "InlineQueryHandler_check_update h u = IQ_Match m"
      then have "re_match p (query iq) = Some m"
        unfolding eq by (cases "re_match p (query iq)") simp_all
      from re_match_Some[OF this] a
      show "m_start m = 0 \<and> m_string m = query iq \<and> m_end m \<in> set (ends p (query iq) 0)
             \<and> matches (InlineQueryHandler_collect_additional_context h ctx (IQ_Match m))
                 = Some [IQ_Match m]"
        by (simp add: InlineQueryHandler_collect_additional_context_def matches_bound)
    qed
    show ?thesis by (intro conjI eq acc m)
  qed
  have n: "pattern h' = None \<longrightarrow>
        matches (InlineQueryHandler_collect_additional_context h' ctx r) = matches ctx"
    by (simp add: InlineQueryHandler_collect_additional_context_def)
  have e1: "InlineQueryHandler_check_update \<lparr>pattern = Some (Cat Bol (lits ''foo''))\<rparr>
        (inline_update ''foobar'')
        = IQ_Match \<lparr>m_string = ''foobar'', m_start = 0, m_end = 3\<rparr>"
    by (simp add: InlineQueryHandler_check_update_def py_eval)
  have e2: "InlineQueryHandler_check_update \<lparr>pattern = Some (Cat Bol (lits ''foo''))\<rparr>
        (inline_update ''barfoo'') = IQ_None"
    by (simp add: InlineQueryHandler_check_update_def py_eval)
  have e3: "InlineQueryHandler_check_update \<lparr>pattern = Some (lits ''foo'')\<rparr>
        (inline_update ''barfoo'') = IQ_None"
    by (simp add: InlineQueryHandler_check_update_def py_eval)
  have e4: "re_search (lits ''foo'') ''barfoo''
        = Some \<lparr>m_string = ''barfoo'', m_start = 3, m_end = 6\<rparr>"
    by (simp add: py_eval upt_rec)
  have e5: "InlineQueryHandler_check_update \<lparr>pattern = Some (lits ''foo'')\<rparr>
        (inline_update ''foobar'')
        = IQ_Match \<lparr>m_string = ''foobar'', m_start = 0, m_end = 3\<rparr>"
    by (simp add: InlineQueryHandler_check_update_def py_eval)
  have e6: "re_fullmatch (lits ''foo'') ''foobar'' = None"
    by (simp add: py_eval)
  show ?thesis
    by (intro conjI impI n[rule_format] e1 e2 e3 e4 e5 e6; (elim conjE)?)
       (rule g[THEN conjunct1] g[THEN conjunct2, THEN conjunct1] g[THEN conjunct2, THEN conjunct2],
         (intro conjI; assumption))+
qed

theorem InlineQueryHandler_match_anchored_witness:
  "InlineQueryHandler_check_update \<lparr>pattern = Some (Cat Bol (lits ''foo''))\<rparr>
      (inline_update ''foobar'') = IQ_Match \<lparr>m_string = ''foobar'', m_start = 0, m_end = 3\<rparr>
   \<and> matches (InlineQueryHandler_collect_additional_context
        \<lparr>pattern = Some (Cat Bol (lits ''foo''))\<rparr> empty_context
        (IQ_Match \<lparr>m_string = ''foobar'', m_start = 0, m_end = 3\<rparr>))
       = Some [IQ_Match \<lparr>m_string = ''foobar'', m_start = 0, m_end = 3\<rparr>]
   \<and> matches (InlineQueryHandler_collect_additional_context \<lparr>pattern = None\<rparr> empty_context IQ_True)
       = None"
proof -
  let ?h = "\<lparr>pattern = Some (Cat Bol (lits ''foo''))\<rparr>"
  let ?m = "\<lparr>m_string = ''foobar'', m_start = 0, m_end = 3\<rparr>"
  have hyp: "pattern ?h = Some (Cat Bol (lits ''foo''))
      \<and> inline_query (inline_update ''foobar'') = Some \<lparr>query = ''foobar''\<rparr>
      \<and> query \<lparr>query = ''foobar''\<rparr> \<noteq> []"
    by (simp add: inline_update_def)
  note t = InlineQueryHandler_match_anchored[where h = ?h and u = "inline_update ''foobar''"
      and h' = "\<lparr>pattern = None\<rparr>" and ctx = empty_context and r = IQ_True]
  note g = t[THEN conjunct1, THEN mp, OF hyp]
  from g[THEN conjunct1] have r1: "InlineQueryHandler_check_update ?h (inline_update ''foobar'') = IQ_Match ?m"
    by (simp add: py_eval)
  from g[THEN conjunct2, THEN conjunct2, rule_format, OF r1]
  have r2: "matches (InlineQueryHandler_collect_additional_context ?h empty_context (IQ_Match ?m))
       = Some [IQ_Match ?m]"
    by (elim conjE)
  have n: "pattern \<lparr>pattern = None\<rparr> = None" by simp
  from t[THEN conjunct2, THEN conjunct1, THEN mp, OF n]
  have r3: "matches (InlineQueryHandler_collect_additional_context \<lparr>pattern = None\<rparr> empty_context IQ_True)
       = None"
    by (simp add: empty_context_def matches_def)
  show ?thesis by (intro conjI r1 r2 r3)
qed

section \<open>InlineActionHandler\<close>

text \<open>
  C4. When the handler has accepted a callback-query update (the peek resolved the data to
  the handler's action id) and the chat-bound lookup then returns no record,
  \<^verbatim>\<open>collect_additional_context\<close> raises (AttributeError, from reading \<^verbatim>\<open>model_data\<close> of
  \<^verbatim>\<open>None\<close>) instead of returning a context, so the error reaches the caller before any
  callback could run. Whenever it does return a context, the view model in it is the
  \<^verbatim>\<open>model_data\<close> of a record the lookup found.
\<close>

theorem InlineActionHandler_missing_record_raises:
  "(InlineActionHandler_check_update h u dispatcher = Some True
      \<and> effective_chat u = Some chat \<and> callback_query u = Some cq
      \<and> lookup_chat_bound_callback (callback_manager dispatcher) (chat_id chat) (data cq) = None
    \<longrightarrow> InlineActionHandler_collect_additional_context ctx u dispatcher = Inl AttributeError
        \<and> (\<exists>d. data cq = Some d \<and> d \<noteq> []
               \<and> peek_action (callback_manager dispatcher) d = Some (action_id h)))
   \<and> (\<forall>ctx'. InlineActionHandler_collect_additional_context ctx u dispatcher = Inr ctx'
        \<longrightarrow> (\<exists>chat cq item. effective_chat u = Some chat \<and> callback_query u = Some cq
               \<and> lookup_chat_bound_callback (callback_manager dispatcher) (chat_id chat) (data cq)
                   = Some item
               \<and> view_model ctx' = Some (model_data item)))"
proof (intro conjI impI allI; (elim conjE)?)
  assume a: "InlineActionHandler_check_update h u dispatcher = Some True"
    "effective_chat u = Some chat" "callback_query u = Some cq"
    "lookup_chat_bound_callback (callback_manager dispatcher) (chat_id chat) (data cq) = None"
  from a(2-4) show "InlineActionHandler_collect_additional_context ctx u dispatcher = Inl AttributeError"
    by (simp add: InlineActionHandler_collect_additional_context_def)
  from a(1,3) show "\<exists>d. data cq = Some d \<and> d \<noteq> []
               \<and> peek_action (callback_manager dispatcher) d = Some (action_id h)"
    by (cases "data cq") (simp_all add: InlineActionHandler_check_update_def split: if_splits)
next
  fix ctx'
  assume "InlineActionHandler_collect_additional_context ctx u dispatcher = Inr ctx'"
  then show "\<exists>chat cq item. effective_chat u = Some chat \<and> callback_query u = Some cq
               \<and> lookup_chat_bound_callback (callback_manager dispatcher) (chat_id chat) (data cq)
                   = Some item
               \<and> view_model ctx' = Some (model_data item)"
    by (auto simp: InlineActionHandler_collect_additional_context_def view_model_bound
          split: option.splits)
qed

theorem InlineActionHandler_missing_record_raises_witness:
  "InlineActionHandler_check_update \<lparr>action_id = 7\<rparr> (callback_update ''tok123'' 42) desynced
      = Some True
   \<and> InlineActionHandler_collect_additional_context empty_context
        (callback_update ''tok123'' 42) desynced = Inl AttributeError"
proof -
  let ?u = "callback_update ''tok123'' 42"
  have acc: "InlineActionHandler_check_update \<lparr>action_id = 7\<rparr> ?u desynced = Some True"
    by (simp add: InlineActionHandler_check_update_def py_eval)
  have hyp: "InlineActionHandler_check_update \<lparr>action_id = 7\<rparr> ?u desynced = Some True
      \<and> effective_chat ?u = Some \<lparr>chat_id = 42\<rparr>
      \<and> callback_query ?u = Some \<lparr>data = Some ''tok123''\<rparr>
      \<and> lookup_chat_bound_callback (callback_manager desynced) (chat_id \<lparr>chat_id = 42\<rparr>)
           (data \<lparr>data = Some ''tok123''\<rparr>) = None"
    using acc by (simp add: py_eval)
  from InlineActionHandler_missing_record_raises[where ctx = empty_context,
      THEN conjunct1, THEN mp, OF hyp, THEN conjunct1]
  have r: "InlineActionHandler_collect_additional_context empty_context ?u desynced = Inl AttributeError" .
  show ?thesis by (intro conjI acc r)
qed

end
